theory Spec2Isabelle
  imports Main "HOL-Library.Multiset" "HOL-Library.Sublist"
begin

section \<open>Optional strings (package opt)\<close>

text \<open>
  \<^verbatim>\<open>type String struct { Value *string }\<close>: the pointer is either nil or
  holds a string, so the field is a \<open>string option\<close>.
\<close>

record String =
  Value :: "string option"

definition NullString :: String where
  "NullString = \<lparr>Value = None\<rparr>"

definition NewString :: "string \<Rightarrow> String" where
  "NewString v = \<lparr>Value = Some v\<rparr>"

definition NewNotEmptyString :: "string \<Rightarrow> String" where
  "NewNotEmptyString v = (if v = [] then NullString else NewString v)"

definition IsNull :: "String \<Rightarrow> bool" where
  "IsNull s = (Value s = None)"

definition IsEmpty :: "String \<Rightarrow> bool" where
  "IsEmpty s = (\<not> IsNull s \<and> Value s = Some [])"

definition NonEmpty :: "String \<Rightarrow> String" where
  "NonEmpty s = (if IsEmpty s then NullString else s)"

definition Unwrap :: "String \<Rightarrow> string" where
  "Unwrap s = (if IsNull s then [] else (case Value s of Some v \<Rightarrow> v | None \<Rightarrow> []))"


section \<open>Paths and errors\<close>

text \<open>
  A cleaned file path, as \<^verbatim>\<open>filepath.Clean\<close> leaves it: whether it is absolute and
  its components. The absolute path without components is \<^verbatim>\<open>"/"\<close>, the relative
  one is \<^verbatim>\<open>"."\<close>.
\<close>

record fpath =
  isAbs :: bool
  elems :: "string list"

definition slash :: fpath where
  "slash = \<lparr>isAbs = True, elems = []\<rparr>"

definition dot :: fpath where
  "dot = \<lparr>isAbs = False, elems = []\<rparr>"

text \<open>\<^verbatim>\<open>filepath.Dir\<close>: all but the last component; \<^verbatim>\<open>"/"\<close> and \<^verbatim>\<open>"."\<close> are fixed points.\<close>

definition Dir :: "fpath \<Rightarrow> fpath" where
  "Dir p = p\<lparr>elems := butlast (elems p)\<rparr>"

text \<open>\<^verbatim>\<open>filepath.Join\<close> with a relative literal such as \<^verbatim>\<open>".zk/config.toml"\<close>.\<close>

definition Join :: "fpath \<Rightarrow> string list \<Rightarrow> fpath" where
  "Join p names = p\<lparr>elems := elems p @ names\<rparr>"

text \<open>
  The two string constants of package zk that \<^verbatim>\<open>Create\<close> writes, referred to by
  name (their text plays no part in the control flow).
\<close>

datatype content = defaultConfig | defaultTemplate

text \<open>
  Errors as values. \<open>ErrNotebookNotFound p\<close> is the Go type of that name
  (\<^verbatim>\<open>"no notebook found in %s or a parent directory"\<close>); \<open>AlreadyExists p\<close> is
  \<^verbatim>\<open>fmt.Errorf("a notebook already exists in %v", p)\<close>; \<open>Wrapped msg e\<close> is what
  \<^verbatim>\<open>errors.Wrapper(msg)\<close> and \<^verbatim>\<open>errors.Wrap(e, msg)\<close> make of a non-nil \<open>e\<close>;
  \<open>External msg\<close> is an error reported by the operating system, the SQL
  engine or another collaborator; \<open>Panic msg\<close> is a Go panic.
\<close>

datatype error =
    ErrNotebookNotFound fpath
  | AlreadyExists fpath
  | Wrapped string error
  | External string
  | Panic string

text \<open>\<^verbatim>\<open>errors.Wrap(err, msg)\<close> keeps a nil error nil.\<close>

definition Wrap :: "error option \<Rightarrow> string \<Rightarrow> error option" where
  "Wrap err msg = (case err of None \<Rightarrow> None | Some e \<Rightarrow> Some (Wrapped msg e))"

section \<open>Locating, opening and creating a notebook (package zk)\<close>

text \<open>
  What the functions of package zk ask of their collaborators, none of which is part
  of the sources at hand: the working directory (\<^verbatim>\<open>filepath.Abs\<close> fails when it cannot
  be read), \<^verbatim>\<open>paths.DirExists\<close>, \<^verbatim>\<open>paths.WriteString\<close> and \<^verbatim>\<open>OpenConfig\<close>. They are
  parameters of the model; \<open>'c\<close> is the type of configurations.
\<close>

record 'c env =
  Getwd :: "error + fpath"
  DirExists :: "fpath \<Rightarrow> error + bool"
  WriteString :: "fpath \<Rightarrow> content \<Rightarrow> error option"
  OpenConfig :: "fpath \<Rightarrow> 'c \<Rightarrow> error + 'c"

text \<open>Cleaning a joined path: \<^verbatim>\<open>".."\<close> removes the component before it, \<^verbatim>\<open>"."\<close> is dropped.\<close>

fun clean_onto :: "string list \<Rightarrow> string list \<Rightarrow> string list" where
  "clean_onto acc [] = acc"
| "clean_onto acc (n # ns) =
     (if n = ''..'' then clean_onto (butlast acc) ns
      else if n = ''.'' then clean_onto acc ns
      else clean_onto (acc @ [n]) ns)"

text \<open>\<^verbatim>\<open>filepath.Abs\<close>: an absolute path is returned cleaned, a relative one is joined
  to the working directory.\<close>

definition Abs :: "'c env \<Rightarrow> fpath \<Rightarrow> error + fpath" where
  "Abs env p =
     (if isAbs p then Inr p
      else (case Getwd env of
              Inl err \<Rightarrow> Inl err
            | Inr wd \<Rightarrow> Inr \<lparr>isAbs = True, elems = clean_onto (elems wd) (elems p)\<rparr>))"

record 'c Zk =
  Path :: fpath
  Config :: 'c
  workingDir :: fpath

function locate :: "'c env \<Rightarrow> fpath \<Rightarrow> fpath \<Rightarrow> error + fpath" where
  "locate env path currentPath =
     (if currentPath = slash \<or> currentPath = dot then Inl (ErrNotebookNotFound path)
      else (case DirExists env (Join currentPath [''.zk'']) of
              Inl err \<Rightarrow> Inl err
            | Inr exists \<Rightarrow>
                if exists then Inr currentPath
                else locate env path (Dir currentPath)))"
  by pat_completeness auto
termination
proof (relation "measure (\<lambda>(env, path, currentPath). length (elems currentPath))")
  show "wf (measure (\<lambda>(env, path, currentPath). length (elems currentPath)))"
    by simp
next
  fix env :: "'c env" and path currentPath :: fpath and x2 :: bool
  assume "\<not> (currentPath = slash \<or> currentPath = dot)"
  then have "elems currentPath \<noteq> []"
    by (cases currentPath) (auto simp: slash_def dot_def)
  then show "((env, path, Dir currentPath), (env, path, currentPath))
      \<in> measure (\<lambda>(env, path, currentPath). length (elems currentPath))"
    by (simp add: Dir_def)
qed

declare locate.simps [simp del]

definition locateRoot :: "'c env \<Rightarrow> fpath \<Rightarrow> error + fpath" where
  "locateRoot env path =
     (if \<not> isAbs path then Inl (Panic ''absolute path expected'')
      else locate env path path)"

definition Open :: "'c env \<Rightarrow> fpath \<Rightarrow> 'c \<Rightarrow> error + 'c Zk" where
  "Open env originalPath parentConfig =
     (case Abs env originalPath of
        Inl err \<Rightarrow> Inl (Wrapped ''open failed'' err)
      | Inr path \<Rightarrow>
          (case locateRoot env path of
             Inl (Panic msg) \<Rightarrow> Inl (Panic msg)
           | Inl err \<Rightarrow> Inl (Wrapped ''open failed'' err)
           | Inr root \<Rightarrow>
               (case OpenConfig env (Join root [''.zk'', ''config.toml'']) parentConfig of
                  Inl err \<Rightarrow> Inl (Wrapped ''open failed'' err)
                | Inr config \<Rightarrow>
                    Inr \<lparr>Path = root, Config = config, workingDir = originalPath\<rparr>)))"

text \<open>
  \<open>Create\<close> returns its error (\<open>None\<close> is nil) and the calls of
  \<^verbatim>\<open>paths.WriteString\<close> it made, in order.
\<close>

definition Create :: "'c env \<Rightarrow> fpath \<Rightarrow> error option \<times> (fpath \<times> content) list" where
  "Create env path0 =
     (case Abs env path0 of
        Inl err \<Rightarrow> (Some (Wrapped ''init failed'' err), [])
      | Inr path \<Rightarrow>
          (case locateRoot env path of
             Inr existingPath \<Rightarrow>
               (Some (Wrapped ''init failed'' (AlreadyExists existingPath)), [])
           | Inl (Panic msg) \<Rightarrow> (Some (Panic msg), [])
           | Inl _ \<Rightarrow>
               (let config = Join path [''.zk'', ''config.toml''];
                    template = Join path [''.zk'', ''templates'', ''default.md'']
                in case WriteString env config defaultConfig of
                     Some err \<Rightarrow> (Some (Wrapped ''init failed'' err), [(config, defaultConfig)])
                   | None \<Rightarrow>
                       (case WriteString env template defaultTemplate of
                          Some err \<Rightarrow>
                            (Some (Wrapped ''init failed'' err),
                             [(config, defaultConfig), (template, defaultTemplate)])
                        | None \<Rightarrow>
                            (None, [(config, defaultConfig), (template, defaultTemplate)])))))"

text \<open>
  The directories a claim about "the ancestors of \<open>P\<close>" speaks of: \<open>ancestors P\<close>
  lists \<open>P\<close> and every directory above it, the file-system root first;
  \<open>ancestors_below_root P\<close> leaves the root out and lists the deepest first, which is
  the order in which \<open>locate\<close> visits them. \<open>has_zk\<close> says that a directory holds a
  \<^verbatim>\<open>.zk\<close> directory, \<open>probe_ok\<close> that asking so raises no error.
\<close>

definition ancestors :: "fpath \<Rightarrow> fpath list" where
  "ancestors p = map (\<lambda>es. p\<lparr>elems := es\<rparr>) (prefixes (elems p))"

definition ancestors_below_root :: "fpath \<Rightarrow> fpath list" where
  "ancestors_below_root p = map (\<lambda>es. p\<lparr>elems := es\<rparr>) (rev (tl (prefixes (elems p))))"

definition has_zk :: "'c env \<Rightarrow> fpath \<Rightarrow> bool" where
  "has_zk env d = (DirExists env (Join d [''.zk'']) = Inr True)"

definition probe_ok :: "'c env \<Rightarrow> fpath \<Rightarrow> bool" where
  "probe_ok env d = (case DirExists env (Join d [''.zk'']) of Inl _ \<Rightarrow> False | Inr _ \<Rightarrow> True)"

text \<open>Concrete environments: only the file-system root holds \<^verbatim>\<open>.zk\<close>; and \<^verbatim>\<open>/a\<close>
  holds \<^verbatim>\<open>.zk\<close> with a configuration file that does not parse.\<close>

definition env_root_only :: "unit env" where
  "env_root_only =
     \<lparr>Getwd = Inr slash,
      DirExists = (\<lambda>d. Inr (d = \<lparr>isAbs = True, elems = [''.zk'']\<rparr>)),
      WriteString = (\<lambda>p c. None),
      OpenConfig = (\<lambda>p c. Inr c)\<rparr>"

definition env_bad_config :: "unit env" where
  "env_bad_config =
     \<lparr>Getwd = Inr slash,
      DirExists = (\<lambda>d. Inr (d = \<lparr>isAbs = True, elems = [''a'', ''.zk'']\<rparr>)),
      WriteString = (\<lambda>p c. Some (External ''read-only file system'')),
      OpenConfig = (\<lambda>p c. Inl (External ''config.toml: failed to parse''))\<rparr>"

definition env_nested :: "unit env" where
  "env_nested =
     \<lparr>Getwd = Inr slash,
      DirExists = (\<lambda>d. Inr (d = \<lparr>isAbs = True, elems = [''a'', ''.zk'']\<rparr>
                           \<or> d = \<lparr>isAbs = True, elems = [''a'', ''b'', ''.zk'']\<rparr>)),
      WriteString = (\<lambda>p c. None),
      OpenConfig = (\<lambda>p c. Inr c)\<rparr>"

definition path_a :: fpath where
  "path_a = \<lparr>isAbs = True, elems = [''a'']\<rparr>"

definition path_abc :: fpath where
  "path_abc = \<lparr>isAbs = True, elems = [''a'', ''b'', ''c'']\<rparr>"

section \<open>The SQLite store (package sqlite)\<close>

subsection \<open>Rows\<close>

text \<open>
  The rows of the tables that \<^verbatim>\<open>DB.Migrate\<close> declares, one record per table and one
  field per column, at the current schema (version 3). Columns declared
  \<^verbatim>\<open>NOT NULL\<close> are plain values; \<^verbatim>\<open>links.target_id\<close> is the one nullable reference.
  A row of the full-text table \<^verbatim>\<open>notes_fts\<close> is what its triggers hand to it.
\<close>

record note_row =
  n_id :: int
  n_path :: string
  n_sortable_path :: string
  n_title :: string
  n_lead :: string
  n_body :: string
  n_raw_content :: string
  n_word_count :: int
  n_checksum :: string
  n_created :: string
  n_modified :: string
  n_metadata :: string

record link_row =
  l_id :: int
  l_source_id :: int
  l_target_id :: "int option"
  l_title :: string
  l_href :: string
  l_external :: int
  l_rels :: string
  l_snippet :: string
  l_snippet_start :: int
  l_snippet_end :: int

record collection_row =
  c_id :: int
  c_kind :: string
  c_name :: string

record note_collection_row =
  nc_id :: int
  nc_note_id :: int
  nc_collection_id :: int

record fts_row =
  rowid :: int
  f_path :: string
  f_title :: string
  f_body :: string

subsection \<open>The database\<close>

text \<open>
  A database: the connection's \<^verbatim>\<open>foreign_keys\<close> pragma, the stored
  \<^verbatim>\<open>user_version\<close>, the schema objects by name (a table with its columns), the rows
  of each table, and for each \<^verbatim>\<open>AUTOINCREMENT\<close> key the largest id handed out so far.
\<close>

record db =
  foreign_keys :: bool
  user_version :: int
  tables :: "(string \<times> string list) list"
  indexes :: "string list"
  triggers :: "string list"
  views :: "string list"
  tbl_notes :: "note_row list"
  seq_notes :: int
  tbl_links :: "link_row list"
  seq_links :: int
  tbl_collections :: "collection_row list"
  seq_collections :: int
  tbl_notes_collections :: "note_collection_row list"
  seq_notes_collections :: int
  tbl_notes_fts :: "fts_row list"

definition empty_db :: db where
  "empty_db =
     \<lparr>foreign_keys = False, user_version = 0, tables = [], indexes = [], triggers = [],
      views = [], tbl_notes = [], seq_notes = 0, tbl_links = [], seq_links = 0,
      tbl_collections = [],
      seq_collections = 0, tbl_notes_collections = [], seq_notes_collections = 0,
      tbl_notes_fts = []\<rparr>"

text \<open>
  \<^verbatim>\<open>open\<close>: \<^verbatim>\<open>sql.Open\<close>, then \<^verbatim>\<open>PRAGMA foreign_keys = ON\<close>; either may fail, which the
  two first arguments say. The third is the database as the file holds it.
\<close>

definition open_db :: "error option \<Rightarrow> error option \<Rightarrow> db \<Rightarrow> error + db" where
  "open_db open_err pragma_err file =
     (case open_err of
        Some err \<Rightarrow> Inl (Wrapped ''failed to open the database'' err)
      | None \<Rightarrow>
          (case pragma_err of
             Some err \<Rightarrow> Inl (Wrapped ''failed to open the database'' err)
           | None \<Rightarrow> Inr (file\<lparr>foreign_keys := True\<rparr>)))"

subsection \<open>Transactions\<close>

text \<open>
  Modelled from the spec: \<^verbatim>\<open>DB.WithTransaction\<close> is not part of the sources at hand.
  The spec has a run "either complete and commit, or abort and roll back in full": the
  closure runs on the transaction; when it returns an error, the database is left as it
  was before; otherwise what the closure did is committed. The closure's first result
  stands for the variables it captures and assigns (\<^verbatim>\<open>needsReindexing\<close>, \<^verbatim>\<open>stats\<close>).
\<close>

definition WithTransaction :: "'s \<Rightarrow> ('s \<Rightarrow> 'a \<times> error option \<times> 's) \<Rightarrow> 'a \<times> error option \<times> 's" where
  "WithTransaction db fn =
     (case fn db of
        (a, Some err, tx) \<Rightarrow> (a, Some err, db)
      | (a, None, tx) \<Rightarrow> (a, None, tx))"

subsection \<open>Schema statements\<close>

text \<open>
  The statements of \<^verbatim>\<open>DB.Migrate\<close>, by kind:
  \<^verbatim>\<open>CREATE TABLE IF NOT EXISTS t (columns)\<close>,
  \<^verbatim>\<open>CREATE INDEX IF NOT EXISTS i ON t (columns)\<close>,
  \<^verbatim>\<open>CREATE VIRTUAL TABLE IF NOT EXISTS t USING fts5(columns, content = c)\<close>,
  \<^verbatim>\<open>CREATE TRIGGER IF NOT EXISTS g AFTER ... ON t\<close>,
  \<^verbatim>\<open>CREATE VIEW v\<close>,
  \<^verbatim>\<open>ALTER TABLE t ADD COLUMN c\<close> and
  \<^verbatim>\<open>PRAGMA user_version = n\<close>.
\<close>

datatype ddl =
    CreateTable string "string list"
  | CreateIndex string string "string list"
  | CreateVirtualTable string "string list" string
  | CreateTrigger string string
  | CreateView string
  | AddColumn string string
  | SetUserVersion int

definition stmts_v1 :: "ddl list" where
  "stmts_v1 =
     [CreateTable ''notes''
        [''id'', ''path'', ''sortable_path'', ''title'', ''lead'', ''body'', ''raw_content'',
         ''word_count'', ''checksum'', ''created'', ''modified''],
      CreateIndex ''index_notes_checksum'' ''notes'' [''checksum''],
      CreateIndex ''index_notes_path'' ''notes'' [''path''],
      CreateTable ''links''
        [''id'', ''source_id'', ''target_id'', ''title'', ''href'', ''external'', ''rels'',
         ''snippet''],
      CreateIndex ''index_links_source_id_target_id'' ''links'' [''source_id'', ''target_id''],
      CreateVirtualTable ''notes_fts'' [''path'', ''title'', ''body''] ''notes'',
      CreateTrigger ''trigger_notes_ai'' ''notes'',
      CreateTrigger ''trigger_notes_ad'' ''notes'',
      CreateTrigger ''trigger_notes_au'' ''notes'',
      SetUserVersion 1]"

definition stmts_v2 :: "ddl list" where
  "stmts_v2 =
     [CreateTable ''collections'' [''id'', ''kind'', ''name''],
      CreateIndex ''index_collections'' ''collections'' [''kind'', ''name''],
      CreateTable ''notes_collections'' [''id'', ''note_id'', ''collection_id''],
      CreateIndex ''index_notes_collections'' ''notes_collections''
        [''note_id'', ''collection_id''],
      CreateView ''notes_with_metadata'',
      SetUserVersion 2]"

definition stmts_v3 :: "ddl list" where
  "stmts_v3 =
     [AddColumn ''notes'' ''metadata'',
      AddColumn ''links'' ''snippet_start'',
      AddColumn ''links'' ''snippet_end'',
      SetUserVersion 3]"

text \<open>
  What the SQL engine does with one statement. A name taken by a table or a view
  makes \<^verbatim>\<open>IF NOT EXISTS\<close> skip the statement and makes \<^verbatim>\<open>CREATE VIEW\<close> fail; an index
  or a trigger needs its table, an added column a table that lacks it. A column added
  to \<^verbatim>\<open>notes\<close> or \<^verbatim>\<open>links\<close> takes its declared default in the rows already there.
\<close>

definition relation_names :: "db \<Rightarrow> string list" where
  "relation_names d = map fst (tables d) @ views d"

definition column_default :: "string \<Rightarrow> string \<Rightarrow> db \<Rightarrow> db" where
  "column_default t c d =
     (if t = ''notes'' \<and> c = ''metadata''
        then d\<lparr>tbl_notes := map (\<lambda>n. n\<lparr>n_metadata := ''{}''\<rparr>) (tbl_notes d)\<rparr>
      else if t = ''links'' \<and> c = ''snippet_start''
        then d\<lparr>tbl_links := map (\<lambda>l. l\<lparr>l_snippet_start := 0\<rparr>) (tbl_links d)\<rparr>
      else if t = ''links'' \<and> c = ''snippet_end''
        then d\<lparr>tbl_links := map (\<lambda>l. l\<lparr>l_snippet_end := 0\<rparr>) (tbl_links d)\<rparr>
      else d)"

fun run_ddl :: "ddl \<Rightarrow> db \<Rightarrow> error + db" where
  "run_ddl (CreateTable t cols) d =
     (if t \<in> set (relation_names d) then Inr d
      else Inr (d\<lparr>tables := tables d @ [(t, cols)]\<rparr>))"
| "run_ddl (CreateIndex i t cols) d =
     (if i \<in> set (indexes d) then Inr d
      else (case map_of (tables d) t of
              None \<Rightarrow> Inl (External ''no such table'')
            | Some tcols \<Rightarrow>
                if set cols \<subseteq> set tcols then Inr (d\<lparr>indexes := indexes d @ [i]\<rparr>)
                else Inl (External ''no such column'')))"
| "run_ddl (CreateVirtualTable t cols c) d =
     (if t \<in> set (relation_names d) then Inr d
      else Inr (d\<lparr>tables := tables d @ [(t, cols)]\<rparr>))"
| "run_ddl (CreateTrigger g t) d =
     (if g \<in> set (triggers d) then Inr d
      else if t \<in> set (map fst (tables d)) then Inr (d\<lparr>triggers := triggers d @ [g]\<rparr>)
      else Inl (External ''no such table''))"
| "run_ddl (CreateView v) d =
     (if v \<in> set (relation_names d) then Inl (External ''view already exists'')
      else Inr (d\<lparr>views := views d @ [v]\<rparr>))"
| "run_ddl (AddColumn t c) d =
     (case map_of (tables d) t of
        None \<Rightarrow> Inl (External ''no such table'')
      | Some tcols \<Rightarrow>
          if c \<in> set tcols then Inl (External ''duplicate column name'')
          else Inr (column_default t c
                 (d\<lparr>tables := map (\<lambda>(n, cs). if n = t then (n, cs @ [c]) else (n, cs))
                                 (tables d)\<rparr>)))"
| "run_ddl (SetUserVersion n) d = Inr (d\<lparr>user_version := n\<rparr>)"

text \<open>
  The engine can also fail for reasons of its own (a full disk, a locked file): \<open>query_err\<close>
  for reading \<^verbatim>\<open>PRAGMA user_version\<close>, \<open>stmt_err\<close> for a statement.
\<close>

record sql_env =
  query_err :: "error option"
  stmt_err :: "ddl \<Rightarrow> error option"

definition exec_ddl :: "sql_env \<Rightarrow> ddl \<Rightarrow> db \<Rightarrow> error + db" where
  "exec_ddl io s d = (case stmt_err io s of Some err \<Rightarrow> Inl err | None \<Rightarrow> run_ddl s d)"

definition query_user_version :: "sql_env \<Rightarrow> db \<Rightarrow> error + int" where
  "query_user_version io d = (case query_err io of Some err \<Rightarrow> Inl err | None \<Rightarrow> Inr (user_version d))"

text \<open>
  Modelled from the spec: \<^verbatim>\<open>Transaction.ExecStmts\<close> is not part of the sources at hand.
  Upgrades "are applied in order": the statements run one after the other and the first
  error ends the run; the transaction is then as the statements before it left it.
\<close>

fun ExecStmts :: "sql_env \<Rightarrow> ddl list \<Rightarrow> db \<Rightarrow> error option \<times> db" where
  "ExecStmts io [] tx = (None, tx)"
| "ExecStmts io (s # ss) tx =
     (case exec_ddl io s tx of
        Inl err \<Rightarrow> (Some err, tx)
      | Inr tx' \<Rightarrow> ExecStmts io ss tx')"

subsection \<open>Migrate\<close>

text \<open>
  The closure that \<^verbatim>\<open>Migrate\<close> hands to \<^verbatim>\<open>WithTransaction\<close>. Its results are the
  captured \<^verbatim>\<open>needsReindexing\<close>, the error it returns and the transaction as it leaves it.
\<close>

definition Migrate_tx :: "sql_env \<Rightarrow> db \<Rightarrow> bool \<times> error option \<times> db" where
  "Migrate_tx io tx =
     (case query_user_version io tx of
        Inl err \<Rightarrow> (False, Some err, tx)
      | Inr version \<Rightarrow>
          (case (if version \<le> 0 then ExecStmts io stmts_v1 tx else (None, tx)) of
             (Some err, tx1) \<Rightarrow> (False, Some err, tx1)
           | (None, tx1) \<Rightarrow>
               (case (if version \<le> 1 then ExecStmts io stmts_v2 tx1 else (None, tx1)) of
                  (Some err, tx2) \<Rightarrow> (False, Some err, tx2)
                | (None, tx2) \<Rightarrow>
                    (if version \<le> 2
                     then (case ExecStmts io stmts_v3 tx2 of
                             (Some err, tx3) \<Rightarrow> (False, Some err, tx3)
                           | (None, tx3) \<Rightarrow> (True, None, tx3))
                     else (False, None, tx2)))))"

definition Migrate :: "sql_env \<Rightarrow> db \<Rightarrow> bool \<times> error option \<times> db" where
  "Migrate io d =
     (case WithTransaction d (Migrate_tx io) of
        (needsReindexing, err, d') \<Rightarrow>
          (needsReindexing, Wrap err ''database migration failed'', d'))"

text \<open>
  The upgrades in the spec's words: the steps to versions 1, 2 and 3, of which those
  above the stored version are applied, in increasing order.
\<close>

fun upgrade_to :: "nat \<Rightarrow> ddl list" where
  "upgrade_to k =
     (if k = 1 then stmts_v1 else if k = 2 then stmts_v2 else if k = 3 then stmts_v3 else [])"

definition pending_upgrades :: "int \<Rightarrow> nat list" where
  "pending_upgrades version = filter (\<lambda>k. version < int k) [1, 2, 3]"

definition upgrade_plan :: "int \<Rightarrow> ddl list" where
  "upgrade_plan version = concat (map upgrade_to (pending_upgrades version))"

text \<open>An additive statement creates a table, an index, a trigger or a view, or adds a
  column; the only other statement of an upgrade records the version reached.\<close>

fun additive :: "ddl \<Rightarrow> bool" where
  "additive (SetUserVersion n) = False"
| "additive s = True"

fun sets_version :: "ddl \<Rightarrow> bool" where
  "sets_version (SetUserVersion n) = True"
| "sets_version s = False"

text \<open>\<open>schema_kept d d'\<close>: every table of \<open>d\<close> with each of its columns, every index,
  trigger and view of \<open>d\<close> is still there in \<open>d'\<close>, and no row was added or removed.\<close>

definition schema_kept :: "db \<Rightarrow> db \<Rightarrow> bool" where
  "schema_kept d d' =
     ((\<forall>(t, cols) \<in> set (tables d). \<exists>cols'. (t, cols') \<in> set (tables d') \<and> set cols \<subseteq> set cols')
      \<and> set (indexes d) \<subseteq> set (indexes d')
      \<and> set (triggers d) \<subseteq> set (triggers d')
      \<and> set (views d) \<subseteq> set (views d')
      \<and> map n_id (tbl_notes d') = map n_id (tbl_notes d)
      \<and> map l_id (tbl_links d') = map l_id (tbl_links d)
      \<and> tbl_collections d' = tbl_collections d
      \<and> tbl_notes_collections d' = tbl_notes_collections d
      \<and> tbl_notes_fts d' = tbl_notes_fts d)"

subsection \<open>Row statements\<close>

text \<open>
  The triggers of schema version 1 that keep the full-text table up to date:
  \<^verbatim>\<open>trigger_notes_ai\<close> inserts the new row's \<^verbatim>\<open>(id, path, title, body)\<close>;
  \<^verbatim>\<open>trigger_notes_ad\<close> hands the old row's values to the \<^verbatim>\<open>'delete'\<close> command, which
  removes that entry; \<^verbatim>\<open>trigger_notes_au\<close> does the one, then the other.
\<close>

definition fts_of :: "note_row \<Rightarrow> fts_row" where
  "fts_of n = \<lparr>rowid = n_id n, f_path = n_path n, f_title = n_title n, f_body = n_body n\<rparr>"

definition trigger_notes_ai :: "note_row \<Rightarrow> db \<Rightarrow> db" where
  "trigger_notes_ai new d = d\<lparr>tbl_notes_fts := tbl_notes_fts d @ [fts_of new]\<rparr>"

definition trigger_notes_ad :: "note_row \<Rightarrow> db \<Rightarrow> db" where
  "trigger_notes_ad old d = d\<lparr>tbl_notes_fts := remove1 (fts_of old) (tbl_notes_fts d)\<rparr>"

definition trigger_notes_au :: "note_row \<Rightarrow> note_row \<Rightarrow> db \<Rightarrow> db" where
  "trigger_notes_au old new d = trigger_notes_ai new (trigger_notes_ad old d)"

text \<open>
  The foreign keys that reference \<^verbatim>\<open>notes(id)\<close>, each with its declared action:
  \<^verbatim>\<open>links.source_id ... ON DELETE CASCADE\<close>, \<^verbatim>\<open>links.target_id ... ON DELETE SET NULL\<close>
  and \<^verbatim>\<open>notes_collections.note_id ... ON DELETE CASCADE\<close>. SQLite applies them only
  on a connection whose \<^verbatim>\<open>foreign_keys\<close> pragma is on.
\<close>

definition on_delete_cascade :: "('r \<Rightarrow> int option) \<Rightarrow> int \<Rightarrow> 'r list \<Rightarrow> 'r list" where
  "on_delete_cascade ref i rows = filter (\<lambda>r. ref r \<noteq> Some i) rows"

definition on_delete_set_null :: "('r \<Rightarrow> int option) \<Rightarrow> ('r \<Rightarrow> 'r) \<Rightarrow> int \<Rightarrow> 'r list \<Rightarrow> 'r list" where
  "on_delete_set_null ref null i rows = map (\<lambda>r. if ref r = Some i then null r else r) rows"

definition on_delete_note :: "int \<Rightarrow> db \<Rightarrow> db" where
  "on_delete_note i d =
     (if foreign_keys d
      then d\<lparr>tbl_links :=
               on_delete_set_null l_target_id (\<lambda>l. l\<lparr>l_target_id := None\<rparr>) i
                 (on_delete_cascade (\<lambda>l. Some (l_source_id l)) i (tbl_links d)),
             tbl_notes_collections :=
               on_delete_cascade (\<lambda>r. Some (nc_note_id r)) i (tbl_notes_collections d)\<rparr>
      else d)"

text \<open>
  Statements on rows. The id of an inserted row is the next of its \<^verbatim>\<open>AUTOINCREMENT\<close>
  sequence, whatever the given row holds there; \<open>UpdateNote i v\<close> sets every other
  column of the note with id \<open>i\<close> to the values of \<open>v\<close>.
\<close>

datatype dml =
    InsertNote note_row
  | UpdateNote int note_row
  | DeleteNote int
  | InsertLink link_row
  | DeleteLinks int
  | InsertCollection collection_row
  | InsertNoteCollection note_collection_row
  | DeleteNoteCollections int

definition insert_note :: "note_row \<Rightarrow> db \<Rightarrow> error + db" where
  "insert_note v d =
     (if n_path v \<in> set (map n_path (tbl_notes d))
      then Inl (External ''UNIQUE constraint failed: notes.path'')
      else (let new = v\<lparr>n_id := seq_notes d + 1\<rparr>
            in Inr (trigger_notes_ai new
                 (d\<lparr>tbl_notes := tbl_notes d @ [new], seq_notes := seq_notes d + 1\<rparr>))))"

definition update_note :: "int \<Rightarrow> note_row \<Rightarrow> db \<Rightarrow> error + db" where
  "update_note i v d =
     (case find (\<lambda>n. n_id n = i) (tbl_notes d) of
        None \<Rightarrow> Inr d
      | Some old \<Rightarrow>
          if n_path v \<in> set (map n_path (filter (\<lambda>n. n_id n \<noteq> i) (tbl_notes d)))
          then Inl (External ''UNIQUE constraint failed: notes.path'')
          else (let new = v\<lparr>n_id := i\<rparr>
                in Inr (trigger_notes_au old new
                     (d\<lparr>tbl_notes := map (\<lambda>n. if n_id n = i then new else n) (tbl_notes d)\<rparr>))))"

definition delete_note :: "int \<Rightarrow> db \<Rightarrow> error + db" where
  "delete_note i d =
     (case find (\<lambda>n. n_id n = i) (tbl_notes d) of
        None \<Rightarrow> Inr d
      | Some old \<Rightarrow>
          Inr (trigger_notes_ad old
            (on_delete_note i (d\<lparr>tbl_notes := filter (\<lambda>n. n_id n \<noteq> i) (tbl_notes d)\<rparr>))))"

definition insert_link :: "link_row \<Rightarrow> db \<Rightarrow> error + db" where
  "insert_link v d =
     (if foreign_keys d \<and>
         (l_source_id v \<notin> set (map n_id (tbl_notes d)) \<or>
          (case l_target_id v of None \<Rightarrow> False | Some t \<Rightarrow> t \<notin> set (map n_id (tbl_notes d))))
      then Inl (External ''FOREIGN KEY constraint failed'')
      else Inr (d\<lparr>tbl_links := tbl_links d @ [v\<lparr>l_id := seq_links d + 1\<rparr>],
                  seq_links := seq_links d + 1\<rparr>))"

definition insert_collection :: "collection_row \<Rightarrow> db \<Rightarrow> error + db" where
  "insert_collection v d =
     (if (c_kind v, c_name v) \<in> set (map (\<lambda>c. (c_kind c, c_name c)) (tbl_collections d))
      then Inl (External ''UNIQUE constraint failed: collections.kind, collections.name'')
      else Inr (d\<lparr>tbl_collections := tbl_collections d @ [v\<lparr>c_id := seq_collections d + 1\<rparr>],
                  seq_collections := seq_collections d + 1\<rparr>))"

definition insert_note_collection :: "note_collection_row \<Rightarrow> db \<Rightarrow> error + db" where
  "insert_note_collection v d =
     (if foreign_keys d \<and>
         (nc_note_id v \<notin> set (map n_id (tbl_notes d)) \<or>
          nc_collection_id v \<notin> set (map c_id (tbl_collections d)))
      then Inl (External ''FOREIGN KEY constraint failed'')
      else Inr (d\<lparr>tbl_notes_collections :=
                    tbl_notes_collections d @ [v\<lparr>nc_id := seq_notes_collections d + 1\<rparr>],
                  seq_notes_collections := seq_notes_collections d + 1\<rparr>))"

fun exec_dml :: "dml \<Rightarrow> db \<Rightarrow> error + db" where
  "exec_dml (InsertNote v) d = insert_note v d"
| "exec_dml (UpdateNote i v) d = update_note i v d"
| "exec_dml (DeleteNote i) d = delete_note i d"
| "exec_dml (InsertLink v) d = insert_link v d"
| "exec_dml (DeleteLinks i) d =
     Inr (d\<lparr>tbl_links := filter (\<lambda>l. l_source_id l \<noteq> i) (tbl_links d)\<rparr>)"
| "exec_dml (InsertCollection v) d = insert_collection v d"
| "exec_dml (InsertNoteCollection v) d = insert_note_collection v d"
| "exec_dml (DeleteNoteCollections i) d =
     Inr (d\<lparr>tbl_notes_collections :=
               filter (\<lambda>r. nc_note_id r \<noteq> i) (tbl_notes_collections d)\<rparr>)"

text \<open>A run of row statements, as an indexing run makes it: the first error ends it,
  and the transaction stays as the statements before it left it.\<close>

fun exec_all :: "dml list \<Rightarrow> db \<Rightarrow> error option \<times> db" where
  "exec_all [] tx = (None, tx)"
| "exec_all (s # ss) tx =
     (case exec_dml s tx of
        Inl err \<Rightarrow> (Some err, tx)
      | Inr tx' \<Rightarrow> exec_all ss tx')"

fun touches_notes :: "dml \<Rightarrow> bool" where
  "touches_notes (InsertNote v) = True"
| "touches_notes (UpdateNote i v) = True"
| "touches_notes (DeleteNote i) = True"
| "touches_notes s = False"

text \<open>
  The states of an index: a new database file opened, and from there on whatever
  opening it again, a migration that commits, or a row statement that succeeds makes
  of it.
\<close>

inductive reachable :: "db \<Rightarrow> bool" where
  fresh: "open_db open_err pragma_err empty_db = Inr d \<Longrightarrow> reachable d"
| reopen: "reachable d \<Longrightarrow> open_db open_err pragma_err d = Inr d' \<Longrightarrow> reachable d'"
| migrate: "reachable d \<Longrightarrow> Migrate io d = (needs, None, d') \<Longrightarrow> reachable d'"
| statement: "reachable d \<Longrightarrow> exec_dml s d = Inr d' \<Longrightarrow> reachable d'"

text \<open>The full-text table mirrors the notes: one entry per note row, holding that
  row's id, path, title and body.\<close>

definition fts_mirrors_notes :: "db \<Rightarrow> bool" where
  "fts_mirrors_notes d = (mset (tbl_notes_fts d) = mset (map fts_of (tbl_notes d)))"

subsection \<open>The container (package adapter)\<close>

text \<open>
  Of the container, \<^verbatim>\<open>zkErr\<close> decides what \<^verbatim>\<open>Database\<close> and \<^verbatim>\<open>index\<close> do. Their
  collaborators are in a record of their own: what opening the database file may fail
  with, the SQL engine's failures, the zero value of \<^verbatim>\<open>note.IndexingStats\<close>, and
  \<^verbatim>\<open>note.Index\<close>.

  Modelled from the spec: \<^verbatim>\<open>note.Index\<close> is not part of the sources at hand. The spec's
  indexer "runs entirely inside one store transaction" and applies its inserts,
  updates and deletes to the store: it is any function that, given \<^verbatim>\<open>force\<close> and the
  transaction, returns its statistics, its error and the transaction as it left it.
  (The call in \<^verbatim>\<open>Container.index\<close> passes nil for the indexer and does not hand the
  transaction on; a function that leaves the transaction alone is one such function.)
\<close>

record container =
  zkErr :: "error option"

record 'st world =
  open_err :: "error option"
  pragma_err :: "error option"
  sql :: sql_env
  no_stats :: 'st
  Index :: "bool \<Rightarrow> db \<Rightarrow> 'st \<times> error option \<times> db"

definition index :: "container \<Rightarrow> 'st world \<Rightarrow> db \<Rightarrow> bool \<Rightarrow> 'st \<times> error option \<times> db" where
  "index c w d force =
     (case zkErr c of
        Some err \<Rightarrow> (no_stats w, Some err, d)
      | None \<Rightarrow> WithTransaction d (\<lambda>tx. Index w force tx))"

text \<open>\<^verbatim>\<open>Database\<close> returns the handle (\<open>None\<close> is nil), the statistics and the error;
  the last component is the database as the call leaves it.\<close>

definition Database :: "container \<Rightarrow> 'st world \<Rightarrow> db \<Rightarrow> bool \<Rightarrow> db option \<times> 'st \<times> error option \<times> db" where
  "Database c w file forceIndexing =
     (case zkErr c of
        Some err \<Rightarrow> (None, no_stats w, Some err, file)
      | None \<Rightarrow>
          (case open_db (open_err w) (pragma_err w) file of
             Inl err \<Rightarrow> (None, no_stats w, Some err, file)
           | Inr d \<Rightarrow>
               (case Migrate (sql w) d of
                  (needsReindexing, Some err, d1) \<Rightarrow>
                    (None, no_stats w, Some (Wrapped ''failed to migrate the database'' err), d1)
                | (needsReindexing, None, d1) \<Rightarrow>
                    (case index c w d1 (forceIndexing \<or> needsReindexing) of
                       (stats, Some err, d2) \<Rightarrow> (None, stats, Some err, d2)
                     | (stats, None, d2) \<Rightarrow> (Some d2, stats, None, d2)))))"

text \<open>
  What every state of an index satisfies, and what the proofs below carry along: foreign
  keys are enforced, paths and ids are unique among the notes, no id exceeds the
  sequence, and the full-text table mirrors the notes.
\<close>

definition store_inv :: "db \<Rightarrow> bool" where
  "store_inv d =
     (foreign_keys d
      \<and> distinct (map n_path (tbl_notes d))
      \<and> distinct (map n_id (tbl_notes d))
      \<and> (\<forall>i \<in> set (map n_id (tbl_notes d)). i \<le> seq_notes d)
      \<and> fts_mirrors_notes d)"

subsection \<open>Concrete databases and collaborators\<close>

definition io_ok :: sql_env where
  "io_ok = \<lparr>query_err = None, stmt_err = (\<lambda>s. None)\<rparr>"

definition io_view_fails :: sql_env where
  "io_view_fails =
     \<lparr>query_err = None,
      stmt_err = (\<lambda>s. if s = CreateView ''notes_with_metadata''
                       then Some (External ''disk I/O error'') else None)\<rparr>"

definition db_v2 :: db where
  "db_v2 =
     empty_db\<lparr>user_version := 2,
       tables := [(''notes'', [''id'', ''path'']), (''links'', [''id'', ''source_id''])]\<rparr>"

definition db_v4 :: db where
  "db_v4 = empty_db\<lparr>user_version := 4\<rparr>"

definition c_ok :: container where
  "c_ok = \<lparr>zkErr = None\<rparr>"

definition w_reports_force :: "bool world" where
  "w_reports_force =
     \<lparr>open_err = None, pragma_err = None, sql = io_ok, no_stats = False,
      Index = (\<lambda>force tx. (force, None, tx))\<rparr>"

definition note_a :: note_row where
  "note_a =
     \<lparr>n_id = 0, n_path = ''a.md'', n_sortable_path = ''a.md'', n_title = ''A'', n_lead = [],
      n_body = ''see b'', n_raw_content = ''# A see b'', n_word_count = 4, n_checksum = ''c1'',
      n_created = ''2021-01-01'', n_modified = ''2021-01-01'', n_metadata = ''{}''\<rparr>"

definition db_open :: db where
  "db_open = empty_db\<lparr>foreign_keys := True\<rparr>"

definition w_duplicate :: "unit world" where
  "w_duplicate =
     \<lparr>open_err = None, pragma_err = None, sql = io_ok, no_stats = (),
      Index = (\<lambda>force tx. ((), exec_all [InsertNote note_a, InsertNote note_a] tx))\<rparr>"

definition w_single :: "unit world" where
  "w_single =
     \<lparr>open_err = None, pragma_err = None, sql = io_ok, no_stats = (),
      Index = (\<lambda>force tx. ((), exec_all [InsertNote note_a] tx))\<rparr>"

section \<open>Properties of optional strings\<close>

text \<open>
  C10: for every optional String \<open>s\<close>, \<open>NonEmpty s\<close> is \<open>NullString\<close> exactly when
  \<open>s\<close> is null or holds the empty string, so \<open>NonEmpty\<close> is idempotent; and for every
  string \<open>v\<close>, \<open>NewNotEmptyString v\<close> is null if and only if \<open>v\<close> is the empty string.
\<close>

theorem NonEmpty_null_iff_and_idempotent:
  "((NonEmpty s = NullString) = (IsNull s \<or> Value s = Some []))
   \<and> NonEmpty (NonEmpty s) = NonEmpty s
   \<and> (IsNull (NewNotEmptyString v) = (v = []))"
  by (cases s) (auto simp: NonEmpty_def IsEmpty_def IsNull_def NullString_def
      NewNotEmptyString_def NewString_def)

section \<open>Locating a notebook: proofs\<close>

lemma ancestors_below_root_snoc:
  "elems c = es @ [e] \<Longrightarrow> ancestors_below_root c = c # ancestors_below_root (Dir c)"
  by (cases c) (simp add: ancestors_below_root_def Dir_def prefixes_snoc)

lemma ancestors_below_root_Nil: "elems c = [] \<Longrightarrow> ancestors_below_root c = []"
  by (simp add: ancestors_below_root_def)

lemma no_elems_iff: "(c = slash \<or> c = dot) = (elems c = [])"
  by (cases c) (auto simp: slash_def dot_def)

lemma locate_find:
  "\<forall>d \<in> set (ancestors_below_root c). probe_ok env d \<Longrightarrow>
   locate env path c =
     (case find (has_zk env) (ancestors_below_root c) of
        None \<Rightarrow> Inl (ErrNotebookNotFound path)
      | Some d \<Rightarrow> Inr d)"
proof (induction env path c rule: locate.induct)
  case (1 env path currentPath)
  show ?case
  proof (cases "elems currentPath" rule: rev_cases)
    case Nil
    then show ?thesis
      by (subst locate.simps) (simp add: no_elems_iff ancestors_below_root_Nil)
  next
    case (snoc es e)
    note anc = ancestors_below_root_snoc [OF snoc]
    have ne: "\<not> (currentPath = slash \<or> currentPath = dot)"
      using snoc by (simp add: no_elems_iff)
    from "1.prems" anc have ok: "probe_ok env currentPath"
      and rest: "\<forall>d \<in> set (ancestors_below_root (Dir currentPath)). probe_ok env d"
      by simp_all
    from ok obtain b where b: "DirExists env (Join currentPath [''.zk'']) = Inr b"
      by (auto simp: probe_ok_def split: sum.splits)
    have hz: "has_zk env currentPath = b"
      using b by (simp add: has_zk_def)
    show ?thesis
    proof (cases b)
      case True
      with b ne anc hz show ?thesis
        by (subst locate.simps) simp
    next
      case False
      with "1.IH" [OF ne b _ rest] b ne anc hz show ?thesis
        by (subst locate.simps) simp
    qed
  qed
qed

lemma ancestors_below_root_length:
  "d \<in> set (ancestors_below_root c) \<Longrightarrow> length (elems d) \<le> length (elems c)"
proof (induction "elems c" arbitrary: c rule: rev_induct)
  case Nil
  then show ?case by (simp add: ancestors_below_root_Nil)
next
  case (snoc e es)
  from snoc(2) have el: "elems c = es @ [e]" by simp
  have "es = elems (Dir c)" using el by (simp add: Dir_def)
  from snoc(1) [OF this] snoc(3) el show ?case
    by (auto simp: ancestors_below_root_snoc [OF el] Dir_def)
qed

lemma find_deepest:
  "find Q (ancestors_below_root c) = Some d \<Longrightarrow> d' \<in> set (ancestors_below_root c) \<Longrightarrow> Q d' \<Longrightarrow>
   length (elems d') \<le> length (elems d)"
proof (induction "elems c" arbitrary: c rule: rev_induct)
  case Nil
  then show ?case by (simp add: ancestors_below_root_Nil)
next
  case (snoc e es)
  from snoc(2) have el: "elems c = es @ [e]" by simp
  note anc = ancestors_below_root_snoc [OF el]
  have es: "es = elems (Dir c)" using el by (simp add: Dir_def)
  show ?case
  proof (cases "Q c")
    case True
    with snoc(3) anc have "d = c" by simp
    moreover have "length (elems d') \<le> length (elems c)"
      using snoc(4) by (rule ancestors_below_root_length)
    ultimately show ?thesis by simp
  next
    case False
    with snoc(3) anc have f: "find Q (ancestors_below_root (Dir c)) = Some d" by simp
    from False snoc(4,5) anc have "d' \<in> set (ancestors_below_root (Dir c))" by auto
    from snoc(1) [OF es f this snoc(5)] show ?thesis .
  qed
qed

lemma locateRoot_find:
  assumes "isAbs P" and "\<forall>d \<in> set (ancestors_below_root P). probe_ok env d"
  shows "locateRoot env P =
     (case find (has_zk env) (ancestors_below_root P) of
        None \<Rightarrow> Inl (ErrNotebookNotFound P)
      | Some d \<Rightarrow> Inr d)"
  using assms by (simp add: locateRoot_def locate_find)

text \<open>
  C8 (as amended): for every absolute path \<open>P\<close> whose ancestors can be probed without
  error, \<open>Open\<close> returns the deepest ancestor of \<open>P\<close> below the file-system root (\<open>P\<close>
  included) that holds a \<^verbatim>\<open>.zk\<close> directory, provided the configuration file under it
  opens (an error of \<^verbatim>\<open>OpenConfig\<close> is returned wrapped as "open failed"); and when no
  ancestor below the root holds \<^verbatim>\<open>.zk\<close>, it returns \<open>ErrNotebookNotFound P\<close> wrapped
  as "open failed".
\<close>

theorem Open_deepest_ancestor_below_root:
  assumes "isAbs P" and "\<forall>d \<in> set (ancestors_below_root P). probe_ok env d"
  shows "Open env P cfg =
     (case find (has_zk env) (ancestors_below_root P) of
        None \<Rightarrow> Inl (Wrapped ''open failed'' (ErrNotebookNotFound P))
      | Some d \<Rightarrow>
          (case OpenConfig env (Join d [''.zk'', ''config.toml'']) cfg of
             Inl err \<Rightarrow> Inl (Wrapped ''open failed'' err)
           | Inr c \<Rightarrow> Inr \<lparr>Path = d, Config = c, workingDir = P\<rparr>))
    \<and> (\<forall>zk. Open env P cfg = Inr zk \<longrightarrow>
       Path zk \<in> set (ancestors_below_root P) \<and> has_zk env (Path zk) \<and>
       (\<forall>d \<in> set (ancestors_below_root P). has_zk env d \<longrightarrow>
          length (elems d) \<le> length (elems (Path zk))))
    \<and> (\<not> (\<exists>d \<in> set (ancestors_below_root P). has_zk env d) \<longrightarrow>
       Open env P cfg = Inl (Wrapped ''open failed'' (ErrNotebookNotFound P)))"
proof -
  have eq: "Open env P cfg =
     (case find (has_zk env) (ancestors_below_root P) of
        None \<Rightarrow> Inl (Wrapped ''open failed'' (ErrNotebookNotFound P))
      | Some d \<Rightarrow>
          (case OpenConfig env (Join d [''.zk'', ''config.toml'']) cfg of
             Inl err \<Rightarrow> Inl (Wrapped ''open failed'' err)
           | Inr c \<Rightarrow> Inr \<lparr>Path = d, Config = c, workingDir = P\<rparr>))"
    using assms(1) by (simp add: Open_def Abs_def locateRoot_find [OF assms] split: option.splits)
  have deepest: "Path zk \<in> set (ancestors_below_root P) \<and> has_zk env (Path zk) \<and>
       (\<forall>d \<in> set (ancestors_below_root P). has_zk env d \<longrightarrow>
          length (elems d) \<le> length (elems (Path zk)))"
    if ok: "Open env P cfg = Inr zk" for zk
  proof -
    from ok eq obtain d where d: "find (has_zk env) (ancestors_below_root P) = Some d"
      and p: "Path zk = d"
      by (auto split: option.splits sum.splits)
    from d have "d \<in> set (ancestors_below_root P)" and "has_zk env d"
      by (auto simp: find_Some_iff)
    with p find_deepest [OF d] show ?thesis
      by blast
  qed
  have none: "Open env P cfg = Inl (Wrapped ''open failed'' (ErrNotebookNotFound P))"
    if "\<not> (\<exists>d \<in> set (ancestors_below_root P). has_zk env d)"
  proof -
    from that have "find (has_zk env) (ancestors_below_root P) = None"
      by (simp add: find_None_iff)
    with eq show ?thesis
      by simp
  qed
  from eq deepest none show ?thesis
    by blast
qed

theorem Open_deepest_witness:
  "Open env_nested path_abc () =
     Inr \<lparr>Path = \<lparr>isAbs = True, elems = [''a'', ''b'']\<rparr>, Config = (), workingDir = path_abc\<rparr>"
proof -
  have abs: "isAbs path_abc"
    by (simp add: path_abc_def)
  have ok: "\<forall>d \<in> set (ancestors_below_root path_abc). probe_ok env_nested d"
    by (simp add: ancestors_below_root_def path_abc_def probe_ok_def env_nested_def)
  from Open_deepest_ancestor_below_root [OF abs ok, of "()"] show ?thesis
    by (simp add: ancestors_below_root_def path_abc_def has_zk_def env_nested_def Join_def)
qed

text \<open>
  The claim as stated fails: with a \<^verbatim>\<open>.zk\<close> directory in the file-system root only,
  the root is an ancestor of \<^verbatim>\<open>/a\<close> that holds \<^verbatim>\<open>.zk\<close>, and \<open>Open\<close> reports that no
  notebook was found; and with \<^verbatim>\<open>/a/.zk\<close> present, \<open>Open\<close> still fails when the
  configuration file does not open.
\<close>

theorem Open_root_notebook_counterexample:
  "slash \<in> set (ancestors path_a) \<and> has_zk env_root_only slash
   \<and> Open env_root_only path_a () = Inl (Wrapped ''open failed'' (ErrNotebookNotFound path_a))
   \<and> path_a \<in> set (ancestors path_a) \<and> has_zk env_bad_config path_a
   \<and> Open env_bad_config path_a () =
       Inl (Wrapped ''open failed'' (External ''config.toml: failed to parse''))"
  by (simp add: ancestors_def path_a_def slash_def dot_def has_zk_def env_root_only_def
      env_bad_config_def Join_def Dir_def Open_def Abs_def locateRoot_def locate.simps)

text \<open>
  C9 (as amended): for every absolute path whose ancestors can be probed without error,
  \<open>Create\<close> returns the error "a notebook already exists in d", \<open>d\<close> the deepest
  directory among the path and its ancestors below the file-system root that holds
  \<^verbatim>\<open>.zk\<close>, and then calls \<^verbatim>\<open>WriteString\<close> not at all; when none of them holds \<^verbatim>\<open>.zk\<close> it
  writes the default configuration, then the default template, and returns nil when
  both writes succeed, or the error of the first failing write wrapped as
  "init failed".
\<close>

theorem Create_refuses_notebook_below_root:
  assumes "isAbs P" and "\<forall>d \<in> set (ancestors_below_root P). probe_ok env d"
  shows "((\<exists>d \<in> set (ancestors_below_root P). has_zk env d) \<longrightarrow>
            (\<exists>d. find (has_zk env) (ancestors_below_root P) = Some d \<and>
               Create env P = (Some (Wrapped ''init failed'' (AlreadyExists d)), [])))
       \<and> (\<not> (\<exists>d \<in> set (ancestors_below_root P). has_zk env d) \<longrightarrow>
            (WriteString env (Join P [''.zk'', ''config.toml'']) defaultConfig = None \<and>
             WriteString env (Join P [''.zk'', ''templates'', ''default.md'']) defaultTemplate = None \<longrightarrow>
               Create env P =
                 (None, [(Join P [''.zk'', ''config.toml''], defaultConfig),
                         (Join P [''.zk'', ''templates'', ''default.md''], defaultTemplate)]))
          \<and> (\<forall>err. WriteString env (Join P [''.zk'', ''config.toml'']) defaultConfig = Some err \<longrightarrow>
               Create env P =
                 (Some (Wrapped ''init failed'' err),
                  [(Join P [''.zk'', ''config.toml''], defaultConfig)]))
          \<and> (\<forall>err. WriteString env (Join P [''.zk'', ''config.toml'']) defaultConfig = None \<and>
               WriteString env (Join P [''.zk'', ''templates'', ''default.md'']) defaultTemplate = Some err \<longrightarrow>
               Create env P =
                 (Some (Wrapped ''init failed'' err),
                  [(Join P [''.zk'', ''config.toml''], defaultConfig),
                   (Join P [''.zk'', ''templates'', ''default.md''], defaultTemplate)])))"
proof (cases "find (has_zk env) (ancestors_below_root P)")
  case None
  then have no: "\<not> (\<exists>d \<in> set (ancestors_below_root P). has_zk env d)"
    by (simp add: find_None_iff)
  from None have "locateRoot env P = Inl (ErrNotebookNotFound P)"
    by (simp add: locateRoot_find [OF assms])
  with assms(1) no show ?thesis
    by (simp add: Create_def Abs_def)
next
  case (Some d)
  then have d: "d \<in> set (ancestors_below_root P)" "has_zk env d"
    by (auto simp: find_Some_iff)
  from Some have "locateRoot env P = Inr d"
    by (simp add: locateRoot_find [OF assms])
  with assms(1) have "Create env P = (Some (Wrapped ''init failed'' (AlreadyExists d)), [])"
    by (simp add: Create_def Abs_def)
  with d Some show ?thesis by blast
qed

theorem Create_refuses_witness:
  "Create env_nested path_abc =
     (Some (Wrapped ''init failed'' (AlreadyExists \<lparr>isAbs = True, elems = [''a'', ''b'']\<rparr>)), [])
   \<and> Create env_nested \<lparr>isAbs = True, elems = [''n'']\<rparr> =
     (None, [(\<lparr>isAbs = True, elems = [''n'', ''.zk'', ''config.toml'']\<rparr>, defaultConfig),
             (\<lparr>isAbs = True, elems = [''n'', ''.zk'', ''templates'', ''default.md'']\<rparr>,
              defaultTemplate)])"
proof -
  have abs: "isAbs path_abc" "isAbs \<lparr>isAbs = True, elems = [''n'']\<rparr>"
    by (simp_all add: path_abc_def)
  have ok: "\<forall>d \<in> set (ancestors_below_root path_abc). probe_ok env_nested d"
    "\<forall>d \<in> set (ancestors_below_root \<lparr>isAbs = True, elems = [''n'']\<rparr>). probe_ok env_nested d"
    by (simp_all add: ancestors_below_root_def path_abc_def probe_ok_def env_nested_def)
  from Create_refuses_notebook_below_root [OF abs(1) ok(1)]
    Create_refuses_notebook_below_root [OF abs(2) ok(2)]
  show ?thesis
    by (simp add: ancestors_below_root_def path_abc_def has_zk_def env_nested_def Join_def)
qed

text \<open>
  The claim as stated fails: with \<^verbatim>\<open>.zk\<close> in the file-system root only, \<open>Create\<close> on
  \<^verbatim>\<open>/a\<close> writes both files and returns nil although an ancestor holds \<^verbatim>\<open>.zk\<close>; and with
  no \<^verbatim>\<open>.zk\<close> above \<^verbatim>\<open>/b\<close>, a failing write makes \<open>Create\<close> return an error.
\<close>

theorem Create_root_notebook_counterexample:
  "slash \<in> set (ancestors path_a) \<and> has_zk env_root_only slash
   \<and> Create env_root_only path_a =
       (None, [(\<lparr>isAbs = True, elems = [''a'', ''.zk'', ''config.toml'']\<rparr>, defaultConfig),
               (\<lparr>isAbs = True, elems = [''a'', ''.zk'', ''templates'', ''default.md'']\<rparr>,
                defaultTemplate)])
   \<and> \<not> has_zk env_bad_config slash \<and> \<not> has_zk env_bad_config \<lparr>isAbs = True, elems = [''b'']\<rparr>
   \<and> fst (Create env_bad_config \<lparr>isAbs = True, elems = [''b'']\<rparr>) =
       Some (Wrapped ''init failed'' (External ''read-only file system''))"
  by (simp add: ancestors_def path_a_def slash_def dot_def has_zk_def env_root_only_def
      env_bad_config_def Join_def Dir_def Create_def Abs_def locateRoot_def locate.simps)

section \<open>Schema migration: proofs\<close>

lemma ExecStmts_append:
  "ExecStmts io (xs @ ys) tx =
     (case ExecStmts io xs tx of
        (Some err, t) \<Rightarrow> (Some err, t)
      | (None, t) \<Rightarrow> ExecStmts io ys t)"
  by (induction xs arbitrary: tx) (auto split: sum.splits)

lemma pending_upgrades_cases:
  "pending_upgrades v =
     (if v \<le> 0 then [1, 2, 3] else if v \<le> 1 then [2, 3] else if v \<le> 2 then [3] else [])"
  by (simp add: pending_upgrades_def)

lemma upgrade_plan_cases:
  "upgrade_plan v =
     (if v \<le> 0 then stmts_v1 @ stmts_v2 @ stmts_v3
      else if v \<le> 1 then stmts_v2 @ stmts_v3
      else if v \<le> 2 then stmts_v3 else [])"
  by (simp add: upgrade_plan_def pending_upgrades_cases)

lemma Migrate_tx_plan:
  "Migrate_tx io tx =
     (case query_user_version io tx of
        Inl err \<Rightarrow> (False, Some err, tx)
      | Inr version \<Rightarrow>
          (case ExecStmts io (upgrade_plan version) tx of
             (Some err, t) \<Rightarrow> (False, Some err, t)
           | (None, t) \<Rightarrow> (version \<le> 2, None, t)))"
  by (auto simp: Migrate_tx_def upgrade_plan_cases ExecStmts_append
      split: sum.splits prod.splits option.splits)

lemma Migrate_plan:
  "Migrate io d =
     (case query_user_version io d of
        Inl err \<Rightarrow> (False, Some (Wrapped ''database migration failed'' err), d)
      | Inr version \<Rightarrow>
          (case ExecStmts io (upgrade_plan version) d of
             (Some err, t) \<Rightarrow> (False, Some (Wrapped ''database migration failed'' err), d)
           | (None, t) \<Rightarrow> (version \<le> 2, None, t)))"
  by (auto simp: Migrate_def WithTransaction_def Migrate_tx_plan Wrap_def
      split: sum.splits prod.splits option.splits)

lemma run_ddl_version:
  "run_ddl s d = Inr d' \<Longrightarrow> \<not> sets_version s \<Longrightarrow> user_version d' = user_version d"
  by (cases s) (auto simp: column_default_def split: if_splits option.splits)

lemma exec_ddl_version:
  "exec_ddl io s d = Inr d' \<Longrightarrow> \<not> sets_version s \<Longrightarrow> user_version d' = user_version d"
  by (auto simp: exec_ddl_def split: option.splits dest: run_ddl_version)

lemma ExecStmts_sets_version:
  "ExecStmts io (ss @ [SetUserVersion n]) d = (None, d') \<Longrightarrow> user_version d' = n"
proof (induction ss arbitrary: d)
  case Nil
  then show ?case
    by (auto simp: exec_ddl_def split: option.splits sum.splits)
next
  case (Cons s ss)
  then show ?case
    by (auto split: sum.splits)
qed

lemma upgrade_plan_ends:
  "v \<le> 2 \<Longrightarrow> \<exists>ss. upgrade_plan v = ss @ [SetUserVersion 3]"
  by (simp add: upgrade_plan_cases stmts_v3_def)

lemma schema_kept_refl: "schema_kept d d"
  by (auto simp: schema_kept_def)

lemma schema_kept_trans: "schema_kept a b \<Longrightarrow> schema_kept b c \<Longrightarrow> schema_kept a c"
  unfolding schema_kept_def
  apply (intro conjI)
          apply (fastforce)
         apply blast
        apply blast
       apply blast
      apply simp_all
  done

lemma schema_kept_same_schema:
  assumes "tables d' = tables d" "indexes d' = indexes d" "triggers d' = triggers d"
    "views d' = views d" "map n_id (tbl_notes d') = map n_id (tbl_notes d)"
    "map l_id (tbl_links d') = map l_id (tbl_links d)"
    "tbl_collections d' = tbl_collections d"
    "tbl_notes_collections d' = tbl_notes_collections d" "tbl_notes_fts d' = tbl_notes_fts d"
  shows "schema_kept d d'"
  unfolding schema_kept_def using assms by fastforce

lemma column_default_schema_kept: "schema_kept d (column_default t c d)"
  by (rule schema_kept_same_schema) (simp_all add: column_default_def comp_def)

lemma add_column_tables:
  assumes "(a, b) \<in> set ts"
  shows "\<exists>cols'. (a, cols') \<in> set (map (\<lambda>(n, cs). if n = t then (n, cs @ [c]) else (n, cs)) ts)
           \<and> set b \<subseteq> set cols'"
proof (cases "a = t")
  case True
  with assms have "(a, b @ [c]) \<in> set (map (\<lambda>(n, cs). if n = t then (n, cs @ [c]) else (n, cs)) ts)"
    by force
  then show ?thesis by (intro exI [of _ "b @ [c]"]) auto
next
  case False
  with assms have "(a, b) \<in> set (map (\<lambda>(n, cs). if n = t then (n, cs @ [c]) else (n, cs)) ts)"
    by force
  then show ?thesis by (intro exI [of _ b]) auto
qed


lemma run_ddl_schema_kept: "run_ddl s d = Inr d' \<Longrightarrow> schema_kept d d'"
proof (cases s)
  case (AddColumn t c)
  assume r: "run_ddl s d = Inr d'"
  let ?d1 = "d\<lparr>tables := map (\<lambda>(n, cs). if n = t then (n, cs @ [c]) else (n, cs)) (tables d)\<rparr>"
  have "schema_kept d ?d1"
    using add_column_tables [of _ _ "tables d" t c] by (auto simp: schema_kept_def)
  moreover from r AddColumn have "d' = column_default t c ?d1"
    by (auto split: if_splits option.splits)
  ultimately show ?thesis
    using column_default_schema_kept [of ?d1 t c] by (blast intro: schema_kept_trans)
qed (auto simp: schema_kept_def split: if_splits option.splits)

lemma ExecStmts_schema_kept: "ExecStmts io ss d = (None, d') \<Longrightarrow> schema_kept d d'"
proof (induction ss arbitrary: d)
  case Nil
  then show ?case by (simp add: schema_kept_refl)
next
  case (Cons s ss)
  then obtain d1 where 1: "exec_ddl io s d = Inr d1" and 2: "ExecStmts io ss d1 = (None, d')"
    by (auto split: sum.splits)
  from 1 have "schema_kept d d1"
    by (auto simp: exec_ddl_def split: option.splits dest: run_ddl_schema_kept)
  with Cons.IH [OF 2] show ?case
    by (blast intro: schema_kept_trans)
qed

lemma upgrade_plan_kinds: "s \<in> set (upgrade_plan v) \<Longrightarrow> additive s \<or> sets_version s"
  by (auto simp: upgrade_plan_cases stmts_v1_def stmts_v2_def stmts_v3_def split: if_splits)


lemma sorted_pending: "sorted_wrt (<) (pending_upgrades v)"
  by (simp add: pending_upgrades_cases)

text \<open>
  C4 (as amended): a \<open>Migrate\<close> that succeeds has run, in one transaction, exactly the
  statements of the upgrades above the stored version, in increasing order up to
  version 3; each of these statements is additive or records the version reached, and
  every table, column, index, trigger and view that was there is still there. From a
  stored version of at most 3 the stored version is then 3; from a stored version above
  3 no upgrade is applied and the database is left as it was.
\<close>

theorem Migrate_applies_pending_upgrades_in_order:
  assumes "Migrate io d = (needs, None, d')"
  shows "ExecStmts io (upgrade_plan (user_version d)) d = (None, d')
    \<and> sorted_wrt (<) (pending_upgrades (user_version d))
    \<and> set (pending_upgrades (user_version d)) = {k. user_version d < int k \<and> 1 \<le> k \<and> k \<le> 3}
    \<and> (\<forall>s \<in> set (upgrade_plan (user_version d)). additive s \<or> sets_version s)
    \<and> schema_kept d d'
    \<and> (user_version d \<le> 3 \<longrightarrow> user_version d' = 3)
    \<and> (3 < user_version d \<longrightarrow> d' = d)"
proof -
  from assms have q: "query_user_version io d = Inr (user_version d)"
    by (auto simp: Migrate_plan query_user_version_def split: option.splits sum.splits)
  with assms have run: "ExecStmts io (upgrade_plan (user_version d)) d = (None, d')"
    by (auto simp: Migrate_plan split: prod.splits option.splits)
  have set_eq: "set (pending_upgrades (user_version d)) = {k. user_version d < int k \<and> 1 \<le> k \<and> k \<le> 3}"
    by (auto simp: pending_upgrades_def)
  have v3: "user_version d' = 3" if le: "user_version d \<le> 3"
  proof (cases "user_version d \<le> 2")
    case True
    from upgrade_plan_ends [OF True] obtain ss
      where "upgrade_plan (user_version d) = ss @ [SetUserVersion 3]" ..
    with run show ?thesis
      by (simp add: ExecStmts_sets_version)
  next
    case False
    with le have "user_version d = 3" by simp
    with run show ?thesis
      by (simp add: upgrade_plan_cases)
  qed
  have same: "d' = d" if "3 < user_version d"
    using that run by (simp add: upgrade_plan_cases)
  from run sorted_pending set_eq upgrade_plan_kinds ExecStmts_schema_kept [OF run] v3 same
  show ?thesis
    by blast
qed

theorem Migrate_in_order_witness:
  "Migrate io_ok db_v2 =
     (True, None,
      db_v2\<lparr>user_version := 3,
        tables := [(''notes'', [''id'', ''path'', ''metadata'']),
                   (''links'', [''id'', ''source_id'', ''snippet_start'', ''snippet_end''])]\<rparr>)
   \<and> schema_kept db_v2 (snd (snd (Migrate io_ok db_v2)))
   \<and> user_version (snd (snd (Migrate io_ok db_v2))) = 3"
proof -
  have m: "Migrate io_ok db_v2 =
     (True, None,
      db_v2\<lparr>user_version := 3,
        tables := [(''notes'', [''id'', ''path'', ''metadata'']),
                   (''links'', [''id'', ''source_id'', ''snippet_start'', ''snippet_end''])]\<rparr>)"
    by (simp add: Migrate_def WithTransaction_def Migrate_tx_def query_user_version_def
        io_ok_def db_v2_def empty_db_def stmts_v3_def exec_ddl_def column_default_def Wrap_def)
  from Migrate_applies_pending_upgrades_in_order [OF m] m show ?thesis
    by simp
qed

text \<open>
  The claim as stated fails: on a database whose stored version is 4, \<open>Migrate\<close>
  succeeds and the stored version is still 4.
\<close>

theorem Migrate_newer_version_counterexample:
  "Migrate io_ok db_v4 = (False, None, db_v4) \<and> user_version db_v4 = 4"
  by (simp add: Migrate_def WithTransaction_def Migrate_tx_def query_user_version_def
      io_ok_def db_v4_def empty_db_def Wrap_def)

text \<open>
  C6: if reading the stored version or any statement of the pending upgrades fails,
  \<open>Migrate\<close> returns that error, wrapped as "database migration failed", and the
  database is as it was before, at its prior stored version: nothing of a partly applied
  upgrade is committed.
\<close>

theorem Migrate_rolls_back_on_error:
  "(\<forall>err. query_err io = Some err \<longrightarrow>
      Migrate io d = (False, Some (Wrapped ''database migration failed'' err), d))
   \<and> (\<forall>err tx. query_err io = None \<and>
         ExecStmts io (upgrade_plan (user_version d)) d = (Some err, tx) \<longrightarrow>
      Migrate io d = (False, Some (Wrapped ''database migration failed'' err), d))
   \<and> (\<forall>needs err d'. Migrate io d = (needs, Some err, d') \<longrightarrow>
         d' = d \<and> user_version d' = user_version d \<and> \<not> needs)"
  by (auto simp: Migrate_plan query_user_version_def split: option.splits sum.splits prod.splits)

theorem Migrate_rolls_back_witness:
  "ExecStmts io_view_fails (upgrade_plan (user_version empty_db)) empty_db =
     (Some (External ''disk I/O error''),
      empty_db\<lparr>user_version := 1,
        tables :=
          [(''notes'',
            [''id'', ''path'', ''sortable_path'', ''title'', ''lead'', ''body'', ''raw_content'',
             ''word_count'', ''checksum'', ''created'', ''modified'']),
           (''links'',
            [''id'', ''source_id'', ''target_id'', ''title'', ''href'', ''external'', ''rels'',
             ''snippet'']),
           (''notes_fts'', [''path'', ''title'', ''body'']),
           (''collections'', [''id'', ''kind'', ''name'']),
           (''notes_collections'', [''id'', ''note_id'', ''collection_id''])],
        indexes :=
          [''index_notes_checksum'', ''index_notes_path'', ''index_links_source_id_target_id'',
           ''index_collections'', ''index_notes_collections''],
        triggers := [''trigger_notes_ai'', ''trigger_notes_ad'', ''trigger_notes_au'']\<rparr>)
   \<and> Migrate io_view_fails empty_db =
     (False, Some (Wrapped ''database migration failed'' (External ''disk I/O error'')), empty_db)"
proof -
  have q: "query_err io_view_fails = None"
    by (simp add: io_view_fails_def)
  have run: "ExecStmts io_view_fails (upgrade_plan (user_version empty_db)) empty_db =
     (Some (External ''disk I/O error''),
      empty_db\<lparr>user_version := 1,
        tables :=
          [(''notes'',
            [''id'', ''path'', ''sortable_path'', ''title'', ''lead'', ''body'', ''raw_content'',
             ''word_count'', ''checksum'', ''created'', ''modified'']),
           (''links'',
            [''id'', ''source_id'', ''target_id'', ''title'', ''href'', ''external'', ''rels'',
             ''snippet'']),
           (''notes_fts'', [''path'', ''title'', ''body'']),
           (''collections'', [''id'', ''kind'', ''name'']),
           (''notes_collections'', [''id'', ''note_id'', ''collection_id''])],
        indexes :=
          [''index_notes_checksum'', ''index_notes_path'', ''index_links_source_id_target_id'',
           ''index_collections'', ''index_notes_collections''],
        triggers := [''trigger_notes_ai'', ''trigger_notes_ad'', ''trigger_notes_au'']\<rparr>)"
    by (simp add: upgrade_plan_cases stmts_v1_def stmts_v2_def stmts_v3_def empty_db_def
        io_view_fails_def exec_ddl_def relation_names_def)
  from Migrate_rolls_back_on_error [of io_view_fails empty_db] q run show ?thesis
    by blast
qed

lemma upgrade_plan_ends_v3: "v \<le> 2 \<Longrightarrow> \<exists>pre. upgrade_plan v = pre @ stmts_v3"
proof -
  assume v: "v \<le> 2"
  consider "v \<le> 0" | "v = 1" | "v = 2" using v by linarith
  then show ?thesis
  proof cases
    case 1
    then have "upgrade_plan v = (stmts_v1 @ stmts_v2) @ stmts_v3"
      by (simp add: upgrade_plan_cases)
    then show ?thesis ..
  next
    case 2
    then have "upgrade_plan v = stmts_v2 @ stmts_v3"
      by (simp add: upgrade_plan_cases)
    then show ?thesis ..
  next
    case 3
    then have "upgrade_plan v = [] @ stmts_v3"
      by (simp add: upgrade_plan_cases)
    then show ?thesis ..
  qed
qed

text \<open>
  C5: the flag that \<open>Migrate\<close> returns is true exactly when it succeeded from a stored
  version of at most 2, which is when it applied (and committed) the upgrade to version
  3 that adds the metadata column and the snippet offsets; and \<open>Database\<close>, once the
  migration has succeeded, runs the indexer with \<open>force\<close> set to the caller's
  \<open>forceIndexing\<close> or that flag.
\<close>

theorem Migrate_flag_forwarded_to_index:
  "(\<forall>needs err d'. Migrate io d = (needs, err, d') \<longrightarrow>
      needs = (err = None \<and> user_version d \<le> 2)
      \<and> (needs \<longrightarrow> (\<exists>tx. ExecStmts io stmts_v3 tx = (None, d')) \<and> user_version d' = 3))
   \<and> (\<forall>d needs d1. zkErr c = None \<and> open_db (open_err w) (pragma_err w) file = Inr d \<and>
         Migrate (sql w) d = (needs, None, d1) \<longrightarrow>
       needs = (user_version d \<le> 2) \<and>
       Database c w file forceIndexing =
         (case WithTransaction d1 (Index w (forceIndexing \<or> user_version d \<le> 2)) of
            (stats, Some err, d2) \<Rightarrow> (None, stats, Some err, d2)
          | (stats, None, d2) \<Rightarrow> (Some d2, stats, None, d2)))"
proof -
  have flag: "needs = (err = None \<and> user_version d \<le> 2)"
    if "Migrate io d = (needs, err, d')" for needs err d'
    using that
    by (auto simp: Migrate_plan query_user_version_def split: option.splits sum.splits prod.splits)
  have applied: "(\<exists>tx. ExecStmts io stmts_v3 tx = (None, d')) \<and> user_version d' = 3"
    if m: "Migrate io d = (True, err, d')" for err d'
  proof -
    from flag [OF m] have v: "user_version d \<le> 2" and e: "err = None" by simp_all
    from m e have q: "query_user_version io d = Inr (user_version d)"
      by (auto simp: Migrate_plan query_user_version_def split: option.splits sum.splits)
    with m e have run: "ExecStmts io (upgrade_plan (user_version d)) d = (None, d')"
      by (auto simp: Migrate_plan split: prod.splits option.splits)
    from upgrade_plan_ends_v3 [OF v] obtain pre
      where pre: "upgrade_plan (user_version d) = pre @ stmts_v3" ..
    with run have "\<exists>tx. ExecStmts io stmts_v3 tx = (None, d')"
      by (auto simp: ExecStmts_append split: prod.splits option.splits)
    moreover from upgrade_plan_ends [OF v] run have "user_version d' = 3"
      by (auto simp: ExecStmts_sets_version)
    ultimately show ?thesis by simp
  qed
  have db: "needs = (user_version d \<le> 2) \<and>
       Database c w file forceIndexing =
         (case WithTransaction d1 (Index w (forceIndexing \<or> user_version d \<le> 2)) of
            (stats, Some err, d2) \<Rightarrow> (None, stats, Some err, d2)
          | (stats, None, d2) \<Rightarrow> (Some d2, stats, None, d2))"
    if "zkErr c = None" "open_db (open_err w) (pragma_err w) file = Inr d"
      "Migrate (sql w) d = (needs, None, d1)" for d needs d1
  proof -
    from that(3) have "needs = (user_version d \<le> 2)"
      by (auto simp: Migrate_plan query_user_version_def
          split: option.splits sum.splits prod.splits)
    with that show ?thesis
      by (simp add: Database_def index_def)
  qed
  have first: "\<forall>needs err d'. Migrate io d = (needs, err, d') \<longrightarrow>
      needs = (err = None \<and> user_version d \<le> 2)
      \<and> (needs \<longrightarrow> (\<exists>tx. ExecStmts io stmts_v3 tx = (None, d')) \<and> user_version d' = 3)"
  proof (intro allI impI)
    fix needs err d'
    assume m: "Migrate io d = (needs, err, d')"
    have "(\<exists>tx. ExecStmts io stmts_v3 tx = (None, d')) \<and> user_version d' = 3" if needs
      using that m applied [of err d'] by simp
    with flag [OF m]
    show "needs = (err = None \<and> user_version d \<le> 2)
      \<and> (needs \<longrightarrow> (\<exists>tx. ExecStmts io stmts_v3 tx = (None, d')) \<and> user_version d' = 3)"
      by blast
  qed
  have second: "\<forall>d needs d1. zkErr c = None \<and> open_db (open_err w) (pragma_err w) file = Inr d \<and>
         Migrate (sql w) d = (needs, None, d1) \<longrightarrow>
       needs = (user_version d \<le> 2) \<and>
       Database c w file forceIndexing =
         (case WithTransaction d1 (Index w (forceIndexing \<or> user_version d \<le> 2)) of
            (stats, Some err, d2) \<Rightarrow> (None, stats, Some err, d2)
          | (stats, None, d2) \<Rightarrow> (Some d2, stats, None, d2))"
    using db by blast
  from first second show ?thesis
    by (rule conjI)
qed

theorem Migrate_flag_witness:
  "Migrate io_ok (db_v2\<lparr>foreign_keys := True\<rparr>) =
     (True, None,
      db_v2\<lparr>foreign_keys := True, user_version := 3,
        tables := [(''notes'', [''id'', ''path'', ''metadata'']),
                   (''links'', [''id'', ''source_id'', ''snippet_start'', ''snippet_end''])]\<rparr>)
   \<and> fst (snd (Database c_ok w_reports_force db_v2 False)) = True
   \<and> fst (snd (snd (Database c_ok w_reports_force db_v2 False))) = None"
proof -
  have m: "Migrate (sql w_reports_force) (db_v2\<lparr>foreign_keys := True\<rparr>) =
     (True, None,
      db_v2\<lparr>foreign_keys := True, user_version := 3,
        tables := [(''notes'', [''id'', ''path'', ''metadata'']),
                   (''links'', [''id'', ''source_id'', ''snippet_start'', ''snippet_end''])]\<rparr>)"
    by (simp add: Migrate_def WithTransaction_def Migrate_tx_def query_user_version_def
        io_ok_def db_v2_def empty_db_def stmts_v3_def exec_ddl_def column_default_def Wrap_def
        w_reports_force_def)
  have z: "zkErr c_ok = None"
    by (simp add: c_ok_def)
  have o: "open_db (open_err w_reports_force) (pragma_err w_reports_force) db_v2 =
      Inr (db_v2\<lparr>foreign_keys := True\<rparr>)"
    by (simp add: open_db_def w_reports_force_def)
  from Migrate_flag_forwarded_to_index [of io_ok "db_v2\<lparr>foreign_keys := True\<rparr>" c_ok
      w_reports_force db_v2 False] z o m
  have "Database c_ok w_reports_force db_v2 False =
     (case WithTransaction
        (db_v2\<lparr>foreign_keys := True, user_version := 3,
           tables := [(''notes'', [''id'', ''path'', ''metadata'']),
                      (''links'', [''id'', ''source_id'', ''snippet_start'', ''snippet_end''])]\<rparr>)
        (Index w_reports_force
           (False \<or> user_version (db_v2\<lparr>foreign_keys := True\<rparr>) \<le> 2)) of
        (stats, Some err, d2) \<Rightarrow> (None, stats, Some err, d2)
      | (stats, None, d2) \<Rightarrow> (Some d2, stats, None, d2))"
    by blast
  then have "fst (snd (Database c_ok w_reports_force db_v2 False)) = True
     \<and> fst (snd (snd (Database c_ok w_reports_force db_v2 False))) = None"
    by (simp add: WithTransaction_def w_reports_force_def db_v2_def empty_db_def)
  with m show ?thesis
    by (simp add: w_reports_force_def)
qed

text \<open>
  C3: an index run is one transaction around the indexer: when the indexer returns an
  error, the database is left as it was before the run, whatever the indexer had done
  until then; when it returns none, everything it did is committed together. (With
  \<^verbatim>\<open>zkErr\<close> set the indexer is not run at all.)
\<close>

theorem index_commits_or_rolls_back:
  "(\<forall>stats tx. zkErr c = None \<and> Index w force d = (stats, None, tx) \<longrightarrow>
      index c w d force = (stats, None, tx))
   \<and> (\<forall>stats err tx. zkErr c = None \<and> Index w force d = (stats, Some err, tx) \<longrightarrow>
      index c w d force = (stats, Some err, d))
   \<and> (\<forall>err. zkErr c = Some err \<longrightarrow> index c w d force = (no_stats w, Some err, d))"
  by (simp add: index_def WithTransaction_def)

theorem index_rolls_back_witness:
  "Index w_duplicate False db_open =
     ((), Some (External ''UNIQUE constraint failed: notes.path''),
      db_open\<lparr>tbl_notes := [note_a\<lparr>n_id := 1\<rparr>], seq_notes := 1,
        tbl_notes_fts := [fts_of (note_a\<lparr>n_id := 1\<rparr>)]\<rparr>)
   \<and> index c_ok w_duplicate db_open False =
     ((), Some (External ''UNIQUE constraint failed: notes.path''), db_open)
   \<and> index c_ok w_single db_open False =
     ((), None,
      db_open\<lparr>tbl_notes := [note_a\<lparr>n_id := 1\<rparr>], seq_notes := 1,
        tbl_notes_fts := [fts_of (note_a\<lparr>n_id := 1\<rparr>)]\<rparr>)"
proof -
  have z: "zkErr c_ok = None"
    by (simp add: c_ok_def)
  have dup: "Index w_duplicate False db_open =
     ((), Some (External ''UNIQUE constraint failed: notes.path''),
      db_open\<lparr>tbl_notes := [note_a\<lparr>n_id := 1\<rparr>], seq_notes := 1,
        tbl_notes_fts := [fts_of (note_a\<lparr>n_id := 1\<rparr>)]\<rparr>)"
    by (simp add: w_duplicate_def insert_note_def trigger_notes_ai_def db_open_def empty_db_def
        Let_def)
  have single: "Index w_single False db_open =
     ((), None,
      db_open\<lparr>tbl_notes := [note_a\<lparr>n_id := 1\<rparr>], seq_notes := 1,
        tbl_notes_fts := [fts_of (note_a\<lparr>n_id := 1\<rparr>)]\<rparr>)"
    by (simp add: w_single_def insert_note_def trigger_notes_ai_def db_open_def empty_db_def
        Let_def)
  from index_commits_or_rolls_back [of c_ok w_duplicate False db_open]
    index_commits_or_rolls_back [of c_ok w_single False db_open] z dup single
  show ?thesis
    by blast
qed


end
